theory Spec2Isabelle
  imports Main "HOL-Library.Sublist"
begin

section \<open>Strings and paths\<close>

text \<open>
  The notebook \<^verbatim>\<open>003-Data-In-Data-Out.ipynb\<close> manipulates paths through their
  string form \<^verbatim>\<open>str(x)\<close> and Python's string methods. A path is modelled by that
  string (POSIX form, components separated by \<^verbatim>\<open>/\<close>); characters are bytes, and
  \<^verbatim>\<open>lower()\<close> is modelled on the ASCII letters.
\<close>

type_synonym path = string

text \<open>\<^verbatim>\<open>s.split(sep)\<close> for a one-character separator: the pieces between the
  occurrences of \<open>sep\<close>, read left to right; \<open>cur\<close> is the piece being read.\<close>

fun split_acc :: "char \<Rightarrow> string \<Rightarrow> string \<Rightarrow> string list" where
  "split_acc sep cur [] = [cur]"
| "split_acc sep cur (c # cs) =
     (if c = sep then cur # split_acc sep [] cs else split_acc sep (cur @ [c]) cs)"

definition str_split :: "char \<Rightarrow> string \<Rightarrow> string list" where
  "str_split sep s = split_acc sep [] s"

text \<open>\<^verbatim>\<open>s.lower()\<close> on ASCII.\<close>

definition lower_char :: "char \<Rightarrow> char" where
  "lower_char c =
     (case map_of (zip ''ABCDEFGHIJKLMNOPQRSTUVWXYZ'' ''abcdefghijklmnopqrstuvwxyz'') c of
        Some l \<Rightarrow> l
      | None \<Rightarrow> c)"

definition str_lower :: "string \<Rightarrow> string" where
  "str_lower s = map lower_char s"

text \<open>\<^verbatim>\<open>s.endswith(t)\<close>: the last \<open>length t\<close> characters of \<open>s\<close> are \<open>t\<close>.\<close>

definition str_endswith :: "string \<Rightarrow> string \<Rightarrow> bool" where
  "str_endswith s t = (length t \<le> length s \<and> drop (length s - length t) s = t)"

text \<open>\<^verbatim>\<open>str(f).split('/')[-1]\<close>: the last component of the path. \<open>str_split\<close> never
  returns the empty list (lemma \<open>str_split_nonempty\<close>), so neither index can raise.\<close>

definition basename :: "path \<Rightarrow> string" where
  "basename f = last (str_split (CHR ''/'') f)"

text \<open>The table name of the two migration loops (notebook lines 214 and 406):
  \<^verbatim>\<open>table_name = f"{str(f).split('/')[-1].split('.')[0].lower()}s"\<close>\<close>

definition deriveTableName :: "path \<Rightarrow> string" where
  "deriveTableName f =
     str_lower (hd (str_split (CHR ''.'') (last (str_split (CHR ''/'') f)))) @ ''s''"

text \<open>\<^verbatim>\<open>name.rfind('.')\<close> and pathlib's \<^verbatim>\<open>stem\<close> of a file name, which the renaming
  cells of the notebook use (\<^verbatim>\<open>f.stem\<close>): the name without its last suffix. A leading
  or a trailing dot starts no suffix.\<close>

definition rfind :: "char \<Rightarrow> string \<Rightarrow> int" where
  "rfind c s =
     (if c \<in> set s then int (length s) - 1 - int (length (takeWhile (\<lambda>x. x \<noteq> c) (rev s)))
      else - 1)"

definition stem :: "string \<Rightarrow> string" where
  "stem name =
     (let i = rfind (CHR ''.'') name
      in if 0 < i \<and> i < int (length name) - 1 then take (nat i) name else name)"

section \<open>Exceptions\<close>

text \<open>
  The Python exceptions the cells can meet, all of them subclasses of \<^verbatim>\<open>Exception\<close>.
  Each carries the text that \<^verbatim>\<open>str(e)\<close> gives (shortened here to its variable part).
  \<open>FileNotFoundError\<close> is what the spec calls DirectoryNotFound when \<^verbatim>\<open>iterdir\<close>
  raises it; whatever \<^verbatim>\<open>read_csv\<close> raises is the spec's ParseError, whatever
  \<^verbatim>\<open>to_sql\<close> raises its LoadError.
\<close>

datatype exn =
    FileNotFoundError string
  | EmptyDataError string
  | ParserError string
  | ValueError string
  | OperationalError string

primrec describe :: "exn \<Rightarrow> string" where
  "describe (FileNotFoundError m) = m"
| "describe (EmptyDataError m) = m"
| "describe (ParserError m) = m"
| "describe (ValueError m) = m"
| "describe (OperationalError m) = m"

section \<open>Tabular data and the relational sink\<close>

text \<open>
  A pandas DataFrame as \<^verbatim>\<open>read_csv(..., index_col='id')\<close> builds it: the index (the
  row identifier) stands apart from the ordinary columns. Every row is kept with its index
  label. Cell values are integers, text or missing; floating point is left out.
\<close>

datatype cell = IntV int | StrV string | NullV

record dataframe =
  index_name :: "string option"
  columns :: "string list"
  entries :: "(cell \<times> cell list) list"

text \<open>A table of the relational store, and the store behind an SQLAlchemy engine:
  its tables by name, whether the server (or the database file) can be reached at all,
  and the writes it refuses although it can be reached. The database server and pandas'
  SQL layer are not part of the repository: \<open>refuses\<close> is a parameter of the store,
  from the table name and the frame to the exception raised for them, if any (a table
  name the server does not take, an identifier value with no SQL type, a violated
  constraint, a full disk).\<close>

record table =
  col_names :: "string list"
  rows :: "cell list list"

record database =
  reachable :: bool
  refuses :: "string \<Rightarrow> dataframe \<Rightarrow> exn option"
  tables :: "string \<rightharpoonup> table"

text \<open>The store takes the write of the frame under the name.\<close>

definition accepts :: "database \<Rightarrow> string \<Rightarrow> dataframe \<Rightarrow> bool" where
  "accepts con name df = (reachable con \<and> refuses con name df = None)"

datatype if_exists = Fail | Replace | Append

text \<open>The rows \<^verbatim>\<open>to_sql\<close> writes. With \<^verbatim>\<open>index=True\<close> (the default, which the
  notebook keeps) the index becomes the first column, named by \<^verbatim>\<open>index_label\<close>;
  with \<^verbatim>\<open>index=False\<close> it is dropped.\<close>

definition frame_table :: "dataframe \<Rightarrow> bool \<Rightarrow> string \<Rightarrow> table" where
  "frame_table df index index_label =
     (if index
      then \<lparr>col_names = index_label # columns df,
            rows = map (\<lambda>(i, vs). i # vs) (entries df)\<rparr>
      else \<lparr>col_names = columns df, rows = map snd (entries df)\<rparr>)"

text \<open>\<^verbatim>\<open>df.to_sql(name=..., con=..., if_exists=..., index=..., index_label=...)\<close>,
  the pandas call of notebook lines 171, 216 and 407. An unreachable store raises, and
  so does a write the store refuses; an existing table is an error under
  \<^verbatim>\<open>'fail'\<close>, is dropped and written anew under \<^verbatim>\<open>'replace'\<close>, and receives the
  rows under \<^verbatim>\<open>'append'\<close>. A refused write is taken to leave the store as it was
  (a write that fails after the old table is dropped is not modelled).\<close>

definition to_sql ::
  "dataframe \<Rightarrow> string \<Rightarrow> database \<Rightarrow> if_exists \<Rightarrow> bool \<Rightarrow> string \<Rightarrow> exn + database" where
  "to_sql df name con pol index index_label =
     (if \<not> reachable con then Inl (OperationalError name)
      else
        (case refuses con name df of
           Some e \<Rightarrow> Inl e
         | None \<Rightarrow>
             (case tables con name of
                None \<Rightarrow>
                  Inr (con\<lparr>tables := (tables con)(name \<mapsto> frame_table df index index_label)\<rparr>)
              | Some old \<Rightarrow>
                  (case pol of
                     Fail \<Rightarrow> Inl (ValueError name)
                   | Replace \<Rightarrow>
                       Inr (con\<lparr>tables := (tables con)
                         (name \<mapsto> frame_table df index index_label)\<rparr>)
                   | Append \<Rightarrow>
                       Inr (con\<lparr>tables := (tables con)
                         (name \<mapsto> old\<lparr>rows := rows old
                            @ rows (frame_table df index index_label)\<rparr>)\<rparr>)))))"

text \<open>\<^verbatim>\<open>pd.read_sql(sql, con=engine)\<close> (notebook line 345) for the statement
  \<^verbatim>\<open>SELECT * FROM name\<close>: every column of the table as an ordinary column, under a
  fresh index 0, 1, 2, ... The notebook's own statement joins three of the loaded tables;
  reading one table back is the single-table case of the same call.\<close>

definition read_sql :: "string \<Rightarrow> database \<Rightarrow> exn + dataframe" where
  "read_sql name con =
     (if \<not> reachable con then Inl (OperationalError name)
      else
        (case tables con name of
           None \<Rightarrow> Inl (OperationalError name)
         | Some t \<Rightarrow>
             Inr \<lparr>index_name = None, columns = col_names t,
                  entries = zip (map (\<lambda>i. IntV (int i)) [0..<length (rows t)]) (rows t)\<rparr>))"

section \<open>The world of a notebook run\<close>

text \<open>
  What the cells read and write: the directories (\<open>listing\<close>: the entry names of each
  existing directory, in the order the operating system enumerates them), the text of the
  regular files, the store behind the SQLite engine \<^verbatim>\<open>engine\<close> and the one behind the
  Postgres engine \<^verbatim>\<open>psql_engine\<close>, and the lines printed so far. The SQLite engine
  keeps its tables in \<^verbatim>\<open>../data/sqlite.db\<close>, an entry of the data directory like any
  other; what that file stores is the field \<open>engine\<close>, not a text in \<open>contents\<close>. That a
  first write creates this file where it is missing is not modelled, so nothing is stated
  about the directory listing after a write through the SQLite engine.
\<close>

record world =
  listing :: "path \<rightharpoonup> string list"
  contents :: "path \<rightharpoonup> string"
  engine :: database
  psql_engine :: database
  stdout :: "string list"

text \<open>The path of a directory entry, as pathlib prints it.\<close>

definition joinpath :: "path \<Rightarrow> string \<Rightarrow> path" where
  "joinpath d n = (if d = ''.'' then n else if d = ''/'' then ''/'' @ n else d @ ''/'' @ n)"

text \<open>\<^verbatim>\<open>d.iterdir()\<close>, run to its end by the list comprehension: the entries of the
  directory as paths, or FileNotFoundError when the directory does not exist.\<close>

definition iterdir :: "world \<Rightarrow> path \<Rightarrow> exn + path list" where
  "iterdir w d =
     (case listing w d of
        None \<Rightarrow> Inl (FileNotFoundError d)
      | Some names \<Rightarrow> Inr (map (joinpath d) names))"

text \<open>\<^verbatim>\<open>path_dir = Path("../data/")\<close>, whose string form has no trailing slash.\<close>

definition path_dir :: path where
  "path_dir = ''../data''"

text \<open>The file list of both migration cells (notebook lines 200-207 and 400):
  \<^verbatim>\<open>[x for x in path_dir.iterdir()
     if str(x).endswith('.csv') and str(x) != '../data/Person1.csv']\<close>\<close>

definition file_list :: "world \<Rightarrow> exn + path list" where
  "file_list w =
     (case iterdir w path_dir of
        Inl e \<Rightarrow> Inl e
      | Inr xs \<Rightarrow>
          Inr (filter (\<lambda>x. str_endswith x ''.csv'' \<and> x \<noteq> ''../data/Person1.csv'') xs))"

text \<open>The same comprehension with its three constants as parameters: the directory, the
  suffix and the excluded paths. The renaming cells use it with \<^verbatim>\<open>'.txt'\<close> and
  nothing excluded. This is the spec's \<open>discover\<close>.\<close>

definition discover :: "world \<Rightarrow> path \<Rightarrow> string \<Rightarrow> path list \<Rightarrow> exn + path list" where
  "discover w d suf exclude =
     (case iterdir w d of
        Inl e \<Rightarrow> Inl e
      | Inr xs \<Rightarrow> Inr (filter (\<lambda>x. str_endswith x suf \<and> x \<notin> set exclude) xs))"

section \<open>Parsing and the two migration loops\<close>

text \<open>
  \<^verbatim>\<open>pd.read_csv(f, sep="\t", index_col='id', low_memory=False)\<close>. The pandas parser is
  not part of the repository: it is the parameter \<open>parse\<close>, from the text of a file to
  the frame or to the exception pandas raises on it. A path with no readable file behind
  it raises before any parsing.
\<close>

type_synonym parser = "string \<Rightarrow> exn + dataframe"

definition read_csv :: "parser \<Rightarrow> world \<Rightarrow> path \<Rightarrow> exn + dataframe" where
  "read_csv parse w f =
     (case contents w f of
        None \<Rightarrow> Inl (FileNotFoundError f)
      | Some text \<Rightarrow> parse text)"

text \<open>The body of the SQLite loop (notebook lines 212-216): parse, derive the table
  name, write with \<^verbatim>\<open>if_exists='replace', index_label='id'\<close>. \<open>Inl\<close> is the exception
  that leaves the body.\<close>

definition sqlite_body :: "parser \<Rightarrow> path \<Rightarrow> world \<Rightarrow> exn + world" where
  "sqlite_body parse f w =
     (case read_csv parse w f of
        Inl e \<Rightarrow> Inl e
      | Inr df \<Rightarrow>
          (case to_sql df (deriveTableName f) (engine w) Replace True ''id'' of
             Inl e \<Rightarrow> Inl e
           | Inr con \<Rightarrow> Inr (w\<lparr>engine := con\<rparr>)))"

text \<open>The SQLite loop (lines 210-216) has no \<^verbatim>\<open>try\<close>: the first exception ends the
  cell. The result is the world reached and the exception left uncaught, if any.\<close>

fun sqlite_loop :: "parser \<Rightarrow> path list \<Rightarrow> world \<Rightarrow> world \<times> exn option" where
  "sqlite_loop parse [] w = (w, None)"
| "sqlite_loop parse (f # fl) w =
     (case sqlite_body parse f w of
        Inl e \<Rightarrow> (w, Some e)
      | Inr w' \<Rightarrow> sqlite_loop parse fl w')"

definition sqlite_cell :: "parser \<Rightarrow> world \<Rightarrow> world \<times> exn option" where
  "sqlite_cell parse w =
     (case file_list w of
        Inl e \<Rightarrow> (w, Some e)
      | Inr fl \<Rightarrow> sqlite_loop parse fl w)"

text \<open>The body of the \<^verbatim>\<open>try\<close> of the Postgres loop (lines 405-407).\<close>

definition psql_body :: "parser \<Rightarrow> path \<Rightarrow> world \<Rightarrow> exn + world" where
  "psql_body parse f w =
     (case read_csv parse w f of
        Inl e \<Rightarrow> Inl e
      | Inr df \<Rightarrow>
          (case to_sql df (deriveTableName f) (psql_engine w) Replace True ''id'' of
             Inl e \<Rightarrow> Inl e
           | Inr con \<Rightarrow> Inr (w\<lparr>psql_engine := con\<rparr>)))"

text \<open>The Postgres loop (lines 403-409):
  \<^verbatim>\<open>except Exception as e: print(f"Error: {e}")\<close>, then the next file.\<close>

definition error_line :: "exn \<Rightarrow> string" where
  "error_line e = ''Error: '' @ describe e"

definition print_error :: "exn \<Rightarrow> world \<Rightarrow> world" where
  "print_error e w = w\<lparr>stdout := stdout w @ [error_line e]\<rparr>"

fun psql_loop :: "parser \<Rightarrow> path list \<Rightarrow> world \<Rightarrow> world" where
  "psql_loop parse [] w = w"
| "psql_loop parse (f # fl) w =
     (case psql_body parse f w of
        Inl e \<Rightarrow> psql_loop parse fl (print_error e w)
      | Inr w' \<Rightarrow> psql_loop parse fl w')"

text \<open>The file list is built outside the \<^verbatim>\<open>try\<close> (line 400): its exception is not
  caught.\<close>

definition psql_cell :: "parser \<Rightarrow> world \<Rightarrow> world \<times> exn option" where
  "psql_cell parse w =
     (case file_list w of
        Inl e \<Rightarrow> (w, Some e)
      | Inr fl \<Rightarrow> (psql_loop parse fl w, None))"

text \<open>The outcome of each iteration of the Postgres loop, in iteration order: what the
  spec calls the LoadResults of a batch. The notebook keeps no such list (it prints the
  failures and nothing for a success); the outcomes are read off the run.\<close>

datatype load_result = Success string | Failure path exn

fun psql_results :: "parser \<Rightarrow> path list \<Rightarrow> world \<Rightarrow> load_result list" where
  "psql_results parse [] w = []"
| "psql_results parse (f # fl) w =
     (case psql_body parse f w of
        Inl e \<Rightarrow> Failure f e # psql_results parse fl (print_error e w)
      | Inr w' \<Rightarrow> Success (deriveTableName f) # psql_results parse fl w')"

primrec is_failure :: "load_result \<Rightarrow> bool" where
  "is_failure (Success t) = False"
| "is_failure (Failure f e) = True"

text \<open>The lines the loop prints for an outcome.\<close>

primrec printed :: "load_result \<Rightarrow> string list" where
  "printed (Success t) = []"
| "printed (Failure f e) = [error_line e]"

section \<open>Sample data for the worked examples\<close>

text \<open>
  Two well-formed tab-separated files and the frames pandas reads from them with
  \<^verbatim>\<open>sep="\t", index_col='id'\<close>, and an empty file, on which pandas raises
  EmptyDataError ("No columns to parse from file"). \<open>sample_parse\<close> stands for the
  pandas parser on these texts and on \<open>big_text\<close> below; the examples give it no other
  text.
\<close>

definition ada_text :: string where
  "ada_text = ''id'' @ [CHR 0x09] @ ''name'' @ [CHR 0x0A] @ ''1'' @ [CHR 0x09] @ ''Ada'' @ [CHR 0x0A]"

definition bob_text :: string where
  "bob_text = ''id'' @ [CHR 0x09] @ ''name'' @ [CHR 0x0A] @ ''2'' @ [CHR 0x09] @ ''Bob'' @ [CHR 0x0A]"

definition ada_frame :: dataframe where
  "ada_frame = \<lparr>index_name = Some ''id'', columns = [''name''], entries = [(IntV 1, [StrV ''Ada''])]\<rparr>"

definition bob_frame :: dataframe where
  "bob_frame = \<lparr>index_name = Some ''id'', columns = [''name''], entries = [(IntV 2, [StrV ''Bob''])]\<rparr>"

text \<open>A well-formed file whose identifier is 2 ^ 63, which pandas reads as an unsigned 64-bit
  integer.\<close>

definition big_text :: string where
  "big_text = ''id'' @ [CHR 0x09] @ ''name'' @ [CHR 0x0A]
     @ ''9223372036854775808'' @ [CHR 0x09] @ ''Eve'' @ [CHR 0x0A]"

definition big_frame :: dataframe where
  "big_frame = \<lparr>index_name = Some ''id'', columns = [''name''],
     entries = [(IntV 9223372036854775808, [StrV ''Eve''])]\<rparr>"

definition sample_parse :: parser where
  "sample_parse text =
     (if text = ada_text then Inr ada_frame
      else if text = bob_text then Inr bob_frame
      else if text = big_text then Inr big_frame
      else Inl (EmptyDataError ''No columns to parse from file''))"

definition empty_db :: database where
  "empty_db = \<lparr>reachable = True, refuses = (\<lambda>name df. None), tables = Map.empty\<rparr>"

text \<open>A reachable store behind which \<^verbatim>\<open>to_sql\<close> raises for an identifier beyond the
  signed 64-bit range ("Unsigned 64 bit integer datatype is not supported").\<close>

definition fits_int64 :: "cell \<Rightarrow> bool" where
  "fits_int64 c = (case c of IntV n \<Rightarrow> - (2 ^ 63) \<le> n \<and> n < 2 ^ 63 | StrV t \<Rightarrow> True | NullV \<Rightarrow> True)"

definition int64_db :: database where
  "int64_db =
     \<lparr>reachable = True,
      refuses = (\<lambda>name df.
        if list_all fits_int64 (map fst (entries df)) then None
        else Some (ValueError ''Unsigned 64 bit integer datatype is not supported'')),
      tables = Map.empty\<rparr>"

text \<open>A data directory with one malformed file and a well-formed one that the store
  refuses.\<close>

definition big_id_world :: world where
  "big_id_world =
     \<lparr>listing = [''../data'' \<mapsto> [''Person.csv'', ''Big.csv'', ''Bad.csv'']],
      contents = [''../data/Person.csv'' \<mapsto> ada_text, ''../data/Big.csv'' \<mapsto> big_text,
                  ''../data/Bad.csv'' \<mapsto> []],
      engine = int64_db, psql_engine = int64_db, stdout = []\<rparr>"

text \<open>A data directory of three entries, the empty file enumerated first.\<close>

definition bad_first_world :: world where
  "bad_first_world =
     \<lparr>listing = [''../data'' \<mapsto> [''Bad.csv'', ''Person.csv'', ''notes.txt'']],
      contents = [''../data/Bad.csv'' \<mapsto> [], ''../data/Person.csv'' \<mapsto> ada_text,
                  ''../data/notes.txt'' \<mapsto> ''to do''],
      engine = empty_db, psql_engine = empty_db, stdout = []\<rparr>"

text \<open>A data directory in which two well-formed files derive the same table name.\<close>

definition collide_world :: world where
  "collide_world =
     \<lparr>listing = [''../data'' \<mapsto> [''Person.csv'', ''Person.old.csv'', ''Bad.csv'']],
      contents = [''../data/Person.csv'' \<mapsto> ada_text, ''../data/Person.old.csv'' \<mapsto> bob_text,
                  ''../data/Bad.csv'' \<mapsto> []],
      engine = empty_db, psql_engine = empty_db, stdout = []\<rparr>"

text \<open>A data directory like the repository's: the copy \<^verbatim>\<open>Person1.csv\<close> that the first
  cell makes, two well-formed files with different table names and an empty one.\<close>

definition mixed_world :: world where
  "mixed_world =
     \<lparr>listing = [''../data'' \<mapsto> [''Person.csv'', ''Person1.csv'', ''Bad.csv'', ''ContactDetail.csv'']],
      contents = [''../data/Person.csv'' \<mapsto> ada_text, ''../data/Person1.csv'' \<mapsto> ada_text,
                  ''../data/Bad.csv'' \<mapsto> [], ''../data/ContactDetail.csv'' \<mapsto> bob_text],
      engine = empty_db, psql_engine = empty_db, stdout = []\<rparr>"

text \<open>A data directory with entries but no \<^verbatim>\<open>.csv\<close> file, and a world in which
  \<^verbatim>\<open>../data\<close> does not exist.\<close>

definition txt_world :: world where
  "txt_world =
     \<lparr>listing = [''../data'' \<mapsto> [''notes.txt'', ''sqlite.db'']],
      contents = [''../data/notes.txt'' \<mapsto> ''to do''],
      engine = empty_db, psql_engine = empty_db, stdout = []\<rparr>"

definition no_dir_world :: world where
  "no_dir_world =
     \<lparr>listing = Map.empty, contents = Map.empty,
      engine = empty_db, psql_engine = empty_db, stdout = []\<rparr>"

text \<open>A store that already holds a table \<^verbatim>\<open>persons\<close>.\<close>

definition old_db :: database where
  "old_db =
     \<lparr>reachable = True, refuses = (\<lambda>name df. None),
      tables = [''persons'' \<mapsto> frame_table bob_frame True ''id'']\<rparr>"

section \<open>Properties of the string functions\<close>

lemma split_acc_nonempty: "split_acc sep cur s \<noteq> []"
  by (induction s arbitrary: cur) auto

lemma str_split_nonempty: "str_split sep s \<noteq> []"
  by (simp add: str_split_def split_acc_nonempty)

lemma hd_split_acc: "hd (split_acc sep cur s) = cur @ takeWhile (\<lambda>c. c \<noteq> sep) s"
  by (induction s arbitrary: cur) auto

lemma hd_str_split: "hd (str_split sep s) = takeWhile (\<lambda>c. c \<noteq> sep) s"
  by (simp add: str_split_def hd_split_acc)

lemma last_split_acc_none: "sep \<notin> set s \<Longrightarrow> split_acc sep cur s = [cur @ s]"
  by (induction s arbitrary: cur) auto

lemma last_split_acc_append:
  "sep \<notin> set b \<Longrightarrow> last (split_acc sep cur (a @ sep # b)) = b"
proof (induction a arbitrary: cur)
  case Nil
  then show ?case by (simp add: last_split_acc_none)
next
  case (Cons x a)
  then show ?case by (simp add: split_acc_nonempty)
qed

lemma basename_join: "CHR ''/'' \<notin> set n \<Longrightarrow> basename (d @ ''/'' @ n) = n"
  by (simp add: basename_def str_split_def last_split_acc_append)

lemma basename_plain: "CHR ''/'' \<notin> set n \<Longrightarrow> basename n = n"
  by (simp add: basename_def str_split_def last_split_acc_none)

lemma deriveTableName_first_dot:
  "deriveTableName f = str_lower (takeWhile (\<lambda>c. c \<noteq> CHR ''.'') (basename f)) @ ''s''"
  by (simp add: deriveTableName_def basename_def hd_str_split)

lemma str_endswith_suffix: "str_endswith s t = suffix t s"
proof
  assume "str_endswith s t"
  then have "s = take (length s - length t) s @ t"
    by (metis append_take_drop_id str_endswith_def)
  then show "suffix t s" by (metis suffixI)
next
  assume "suffix t s"
  then obtain p where "s = p @ t" by (auto simp: suffix_def)
  then show "str_endswith s t" by (simp add: str_endswith_def)
qed


lemma last_occurrence:
  assumes "c \<in> set s"
  shows "\<exists>pre. s = pre @ c # rev (takeWhile (\<lambda>x. x \<noteq> c) (rev s))
           \<and> rfind c s = int (length pre)"
proof -
  let ?t = "takeWhile (\<lambda>x. x \<noteq> c) (rev s)"
  let ?d = "dropWhile (\<lambda>x. x \<noteq> c) (rev s)"
  from assms have "?d \<noteq> []" by simp
  then obtain y rest where d: "?d = y # rest" by (cases ?d) auto
  have "hd ?d = c" using \<open>?d \<noteq> []\<close> hd_dropWhile [of "\<lambda>x. x \<noteq> c" "rev s"] by auto
  with d have y: "y = c" by simp
  have "rev s = ?t @ c # rest"
    using d y takeWhile_dropWhile_id [of "\<lambda>x. x \<noteq> c" "rev s"] by simp
  then have "rev (rev s) = rev (?t @ c # rest)" by simp
  then have s: "s = rev rest @ c # rev ?t" by simp
  have "length s = length rest + 1 + length ?t"
    using arg_cong [OF s, of length] by simp
  then have "rfind c s = int (length (rev rest))"
    using assms by (simp add: rfind_def)
  with s show ?thesis by blast
qed

text \<open>Where pathlib's stem holds no dot, cutting at the first dot and cutting at the last
  suffix give the same text.\<close>

lemma stem_first_dot:
  assumes "CHR ''.'' \<notin> set (stem b)"
  shows "takeWhile (\<lambda>c. c \<noteq> CHR ''.'') b = stem b"
proof (cases "CHR ''.'' \<in> set b")
  case False
  then show ?thesis by (auto simp add: stem_def rfind_def Let_def)
next
  case True
  from last_occurrence [OF True] obtain pre where
    s: "b = pre @ CHR ''.'' # rev (takeWhile (\<lambda>x. x \<noteq> CHR ''.'') (rev b))"
    and r: "rfind (CHR ''.'') b = int (length pre)" by blast
  show ?thesis
  proof (cases "0 < rfind (CHR ''.'') b \<and> rfind (CHR ''.'') b < int (length b) - 1")
    case False
    then have "stem b = b" by (auto simp add: stem_def Let_def)
    with assms True show ?thesis by simp
  next
    case True
    then have "stem b = take (length pre) b" using r by (simp add: stem_def Let_def)
    also have "\<dots> = pre" by (subst s) simp
    finally have st: "stem b = pre" .
    with assms have "\<forall>x\<in>set pre. x \<noteq> CHR ''.''" by auto
    then have "takeWhile (\<lambda>c. c \<noteq> CHR ''.'')
        (pre @ CHR ''.'' # rev (takeWhile (\<lambda>x. x \<noteq> CHR ''.'') (rev b))) = pre"
      by (simp add: takeWhile_append2)
    with s st show ?thesis by simp
  qed
qed

lemmas table_name_defs =
  deriveTableName_def basename_def str_split_def str_lower_def lower_char_def

section \<open>Properties of the file list\<close>

lemma suffix_past_separator:
  assumes "suffix t (p @ c # n)" and "c \<notin> set t"
  shows "suffix t n"
proof -
  from assms(1) have "suffix t (c # n) \<or> (\<exists>t'. t = t' @ c # n \<and> suffix t' p)"
    by (simp add: suffix_append)
  with assms(2) have "suffix t (c # n)" by auto
  with assms(2) show ?thesis by (auto simp: suffix_Cons)
qed

text \<open>The comprehension tests the whole path; for a suffix without \<^verbatim>\<open>/\<close> that is the
  same as testing the entry's name.\<close>

lemma str_endswith_joinpath:
  assumes "CHR ''/'' \<notin> set suf"
  shows "str_endswith (joinpath d n) suf = str_endswith n suf"
proof -
  have "suffix suf (p @ CHR ''/'' # n) = suffix suf n" for p
    using assms suffix_past_separator [of suf p "CHR ''/''" n]
    by (metis suffix_ConsI suffix_appendI)
  from this [of d] this [of "[]"] show ?thesis
    by (simp add: joinpath_def str_endswith_suffix)
qed

lemma file_list_discover: "file_list w = discover w path_dir ''.csv'' [''../data/Person1.csv'']"
  by (simp add: file_list_def discover_def split: sum.splits)

section \<open>Properties of the sink\<close>

lemma to_sql_replace:
  "to_sql df name con Replace index label =
     (if \<not> reachable con then Inl (OperationalError name)
      else
        (case refuses con name df of
           Some e \<Rightarrow> Inl e
         | None \<Rightarrow> Inr (con\<lparr>tables := (tables con)(name \<mapsto> frame_table df index label)\<rparr>)))"
  by (simp add: to_sql_def split: option.splits)

text \<open>A write under \<^verbatim>\<open>'replace'\<close> succeeds exactly when the store takes it.\<close>

lemma to_sql_replace_succeeds_iff:
  "(\<exists>con'. to_sql df name con Replace index label = Inr con') = accepts con name df"
  by (auto simp: to_sql_replace accepts_def split: option.splits)

lemma to_sql_replace_accepted:
  "to_sql df name con Replace index label = Inr con' \<Longrightarrow>
     accepts con name df
     \<and> con' = con\<lparr>tables := (tables con)(name \<mapsto> frame_table df index label)\<rparr>"
  by (auto simp: to_sql_replace accepts_def split: option.splits if_splits)

lemma accepts_tables_update [simp]: "accepts (con\<lparr>tables := t\<rparr>) = accepts con"
  by (rule ext)+ (simp add: accepts_def)

text \<open>Under \<^verbatim>\<open>'append'\<close> the rows already in the table stay: the policy matters.\<close>

lemma to_sql_append_keeps_old_rows:
  "to_sql ada_frame ''persons'' old_db Append True ''id'' =
     Inr (old_db\<lparr>tables := [''persons'' \<mapsto>
       \<lparr>col_names = [''id'', ''name''],
        rows = [[IntV 2, StrV ''Bob''], [IntV 1, StrV ''Ada'']]\<rparr>]\<rparr>)"
  by (simp add: to_sql_def old_db_def frame_table_def ada_frame_def bob_frame_def)

section \<open>Properties of the two loops\<close>

lemma psql_body_eq:
  "psql_body parse f w =
     (case read_csv parse w f of
        Inl e \<Rightarrow> Inl e
      | Inr df \<Rightarrow>
          if \<not> reachable (psql_engine w) then Inl (OperationalError (deriveTableName f))
          else
            (case refuses (psql_engine w) (deriveTableName f) df of
               Some e \<Rightarrow> Inl e
             | None \<Rightarrow>
                 Inr (w\<lparr>psql_engine := (psql_engine w)\<lparr>tables :=
                   (tables (psql_engine w))(deriveTableName f \<mapsto> frame_table df True ''id'')\<rparr>\<rparr>)))"
  by (simp add: psql_body_def to_sql_replace split: sum.splits option.splits)

lemma psql_body_accepted:
  assumes "read_csv parse w f = Inr df" and "accepts (psql_engine w) (deriveTableName f) df"
  shows "psql_body parse f w =
    Inr (w\<lparr>psql_engine := (psql_engine w)\<lparr>tables :=
      (tables (psql_engine w))(deriveTableName f \<mapsto> frame_table df True ''id'')\<rparr>\<rparr>)"
  using assms by (simp add: psql_body_eq accepts_def)

text \<open>A well-formed file whose write the store refuses is a failure of its iteration.\<close>

lemma psql_body_refused:
  assumes "read_csv parse w f = Inr df" and "reachable (psql_engine w)"
    and "refuses (psql_engine w) (deriveTableName f) df = Some e"
  shows "psql_body parse f w = Inl e"
  using assms by (simp add: psql_body_eq)

lemma sqlite_body_eq:
  "sqlite_body parse f w =
     (case read_csv parse w f of
        Inl e \<Rightarrow> Inl e
      | Inr df \<Rightarrow>
          if \<not> reachable (engine w) then Inl (OperationalError (deriveTableName f))
          else
            (case refuses (engine w) (deriveTableName f) df of
               Some e \<Rightarrow> Inl e
             | None \<Rightarrow>
                 Inr (w\<lparr>engine := (engine w)\<lparr>tables :=
                   (tables (engine w))(deriveTableName f \<mapsto> frame_table df True ''id'')\<rparr>\<rparr>)))"
  by (simp add: sqlite_body_def to_sql_replace split: sum.splits option.splits)

lemma psql_body_frame:
  assumes "psql_body parse f w = Inr w'"
  shows "listing w' = listing w" and "contents w' = contents w" and "stdout w' = stdout w"
    and "engine w' = engine w" and "accepts (psql_engine w') = accepts (psql_engine w)"
  using assms by (auto simp: psql_body_eq split: sum.splits if_splits option.splits)

lemma sqlite_body_frame:
  assumes "sqlite_body parse f w = Inr w'"
  shows "contents w' = contents w" and "stdout w' = stdout w"
    and "psql_engine w' = psql_engine w" and "accepts (engine w') = accepts (engine w)"
  using assms by (auto simp: sqlite_body_eq split: sum.splits if_splits option.splits)

lemma print_error_frame:
  "listing (print_error e w) = listing w" "contents (print_error e w) = contents w"
  "engine (print_error e w) = engine w" "psql_engine (print_error e w) = psql_engine w"
  by (simp_all add: print_error_def)

lemma psql_loop_frame:
  "listing (psql_loop parse fl w) = listing w \<and> contents (psql_loop parse fl w) = contents w
   \<and> engine (psql_loop parse fl w) = engine w"
proof (induction fl arbitrary: w)
  case Nil
  then show ?case by simp
next
  case (Cons f fl)
  show ?case
  proof (cases "psql_body parse f w")
    case (Inl e)
    then show ?thesis using Cons [of "print_error e w"] by (simp add: print_error_frame)
  next
    case (Inr w')
    then show ?thesis using Cons [of w'] psql_body_frame [OF Inr] by simp
  qed
qed

lemma sqlite_loop_frame:
  "contents (fst (sqlite_loop parse fl w)) = contents w
   \<and> psql_engine (fst (sqlite_loop parse fl w)) = psql_engine w
   \<and> stdout (fst (sqlite_loop parse fl w)) = stdout w"
proof (induction fl arbitrary: w)
  case Nil
  then show ?case by simp
next
  case (Cons f fl)
  show ?case
  proof (cases "sqlite_body parse f w")
    case (Inl e)
    then show ?thesis by simp
  next
    case (Inr w')
    then show ?thesis using Cons [of w'] sqlite_body_frame [OF Inr] by simp
  qed
qed

text \<open>When the store takes the write of every well-formed file, the outcome of a file is
  decided by its text alone.\<close>

lemma psql_results_accepted:
  assumes "\<forall>f\<in>set fl. \<forall>df. read_csv parse w f = Inr df \<longrightarrow>
    accepts (psql_engine w) (deriveTableName f) df"
  shows "psql_results parse fl w =
    map (\<lambda>f. case read_csv parse w f of Inl e \<Rightarrow> Failure f e
                | Inr df \<Rightarrow> Success (deriveTableName f)) fl"
  using assms
proof (induction fl arbitrary: w)
  case Nil
  then show ?case by simp
next
  case (Cons f fl)
  show ?case
  proof (cases "read_csv parse w f")
    case (Inl e)
    then have body: "psql_body parse f w = Inl e" by (simp add: psql_body_eq)
    have same: "read_csv parse (print_error e w) = read_csv parse w"
      by (rule ext) (simp add: read_csv_def print_error_frame)
    have "\<forall>g\<in>set fl. \<forall>df. read_csv parse (print_error e w) g = Inr df \<longrightarrow>
        accepts (psql_engine (print_error e w)) (deriveTableName g) df"
      using Cons.prems by (simp add: same print_error_frame)
    from Cons.IH [OF this] body Inl show ?thesis by (simp add: same)
  next
    case (Inr df)
    from Cons.prems Inr have acc: "accepts (psql_engine w) (deriveTableName f) df" by simp
    define w' where "w' = w\<lparr>psql_engine := (psql_engine w)\<lparr>tables :=
      (tables (psql_engine w))(deriveTableName f \<mapsto> frame_table df True ''id'')\<rparr>\<rparr>"
    have body: "psql_body parse f w = Inr w'"
      unfolding w'_def by (rule psql_body_accepted [OF Inr acc])
    have same: "read_csv parse w' = read_csv parse w"
      by (rule ext) (simp add: read_csv_def w'_def)
    have "\<forall>g\<in>set fl. \<forall>df. read_csv parse w' g = Inr df \<longrightarrow>
        accepts (psql_engine w') (deriveTableName g) df"
      using Cons.prems by (simp add: same) (simp add: w'_def)
    from Cons.IH [OF this] body Inr show ?thesis by (simp add: same)
  qed
qed

lemma psql_results_length: "length (psql_results parse fl w) = length fl"
  by (induction fl arbitrary: w) (auto split: sum.splits)

text \<open>What the loop prints is one line per failed iteration, carrying \<^verbatim>\<open>str(e)\<close>.\<close>

lemma psql_stdout:
  "stdout (psql_loop parse fl w) = stdout w @ concat (map printed (psql_results parse fl w))"
proof (induction fl arbitrary: w)
  case Nil
  then show ?case by simp
next
  case (Cons f fl)
  show ?case
  proof (cases "psql_body parse f w")
    case (Inl e)
    then show ?thesis using Cons [of "print_error e w"] by (simp add: print_error_def)
  next
    case (Inr w')
    then show ?thesis using Cons [of w'] psql_body_frame(3) [OF Inr] by simp
  qed
qed

lemma length_printed: "length (concat (map printed rs)) = length (filter is_failure rs)"
proof (induction rs)
  case Nil
  then show ?case by simp
next
  case (Cons r rs)
  then show ?case by (cases r) simp_all
qed

lemma psql_loop_keeps_table:
  assumes "\<forall>f\<in>set fl. \<forall>df. read_csv parse w f = Inr df \<longrightarrow> deriveTableName f \<noteq> t"
  shows "tables (psql_engine (psql_loop parse fl w)) t = tables (psql_engine w) t"
  using assms
proof (induction fl arbitrary: w)
  case Nil
  then show ?case by simp
next
  case (Cons f fl)
  show ?case
  proof (cases "psql_body parse f w")
    case (Inl e)
    have same: "read_csv parse (print_error e w) = read_csv parse w"
      by (rule ext) (simp add: read_csv_def print_error_frame)
    have "\<forall>g\<in>set fl. \<forall>df. read_csv parse (print_error e w) g = Inr df
        \<longrightarrow> deriveTableName g \<noteq> t"
      using Cons.prems by (simp add: same)
    from Cons.IH [OF this] Inl show ?thesis by (simp add: print_error_frame)
  next
    case (Inr w')
    have same: "read_csv parse w' = read_csv parse w"
      by (rule ext) (simp add: read_csv_def psql_body_frame(2) [OF Inr])
    have "\<forall>g\<in>set fl. \<forall>df. read_csv parse w' g = Inr df \<longrightarrow> deriveTableName g \<noteq> t"
      using Cons.prems by (simp add: same)
    from Cons.IH [OF this]
    have "tables (psql_engine (psql_loop parse fl w')) t = tables (psql_engine w') t" .
    moreover have "tables (psql_engine w') t = tables (psql_engine w) t"
      using Inr Cons.prems by (auto simp: psql_body_eq split: sum.splits if_splits option.splits)
    ultimately show ?thesis using Inr by simp
  qed
qed

lemma psql_loop_loads:
  assumes "\<forall>f\<in>set fl. \<forall>df. read_csv parse w f = Inr df \<longrightarrow>
      accepts (psql_engine w) (deriveTableName f) df"
    and "distinct (map deriveTableName (filter (\<lambda>f. \<not> isl (read_csv parse w f)) fl))"
    and "f \<in> set fl" and "read_csv parse w f = Inr df"
  shows "tables (psql_engine (psql_loop parse fl w)) (deriveTableName f) = Some (frame_table df True ''id'')"
  using assms
proof (induction fl arbitrary: w)
  case Nil
  then show ?case by simp
next
  case (Cons g fl)
  show ?case
  proof (cases "read_csv parse w g")
    case (Inl e)
    then have body: "psql_body parse g w = Inl e" by (simp add: psql_body_eq)
    from Inl Cons.prems(3,4) have fin: "f \<in> set fl" by auto
    have same: "read_csv parse (print_error e w) = read_csv parse w"
      by (rule ext) (simp add: read_csv_def print_error_frame)
    have reach: "\<forall>x\<in>set fl. \<forall>d. read_csv parse (print_error e w) x = Inr d \<longrightarrow>
        accepts (psql_engine (print_error e w)) (deriveTableName x) d"
      using Cons.prems(1) by (simp add: same print_error_frame)
    have dist: "distinct (map deriveTableName
        (filter (\<lambda>f. \<not> isl (read_csv parse (print_error e w) f)) fl))"
      using Cons.prems(2) Inl by (simp add: same)
    have rd: "read_csv parse (print_error e w) f = Inr df"
      using Cons.prems(4) by (simp add: same)
    from Cons.IH [OF reach dist fin rd] body show ?thesis by simp
  next
    case (Inr dg)
    define w' where "w' = w\<lparr>psql_engine := (psql_engine w)\<lparr>tables :=
      (tables (psql_engine w))(deriveTableName g \<mapsto> frame_table dg True ''id'')\<rparr>\<rparr>"
    from Cons.prems(1) Inr have acc: "accepts (psql_engine w) (deriveTableName g) dg" by simp
    have body: "psql_body parse g w = Inr w'"
      unfolding w'_def by (rule psql_body_accepted [OF Inr acc])
    have same: "read_csv parse w' = read_csv parse w"
      by (rule ext) (simp add: read_csv_def w'_def)
    have reach: "\<forall>x\<in>set fl. \<forall>d. read_csv parse w' x = Inr d \<longrightarrow>
        accepts (psql_engine w') (deriveTableName x) d"
      using Cons.prems(1) by (simp add: same) (simp add: w'_def)
    have dist: "distinct (map deriveTableName (filter (\<lambda>f. \<not> isl (read_csv parse w' f)) fl))"
      using Cons.prems(2) Inr by (simp add: same)
    have fresh: "\<forall>x\<in>set fl. \<forall>d. read_csv parse w' x = Inr d \<longrightarrow> deriveTableName x \<noteq> deriveTableName g"
    proof (intro ballI allI impI)
      fix x d
      assume x: "x \<in> set fl" and d: "read_csv parse w' x = Inr d"
      then have "x \<in> set (filter (\<lambda>f. \<not> isl (read_csv parse w f)) fl)"
        by (simp add: same)
      then have "deriveTableName x \<in> set (map deriveTableName (filter (\<lambda>f. \<not> isl (read_csv parse w f)) fl))"
        by (simp only: set_map) (rule imageI)
      moreover have "deriveTableName g \<notin> set (map deriveTableName (filter (\<lambda>f. \<not> isl (read_csv parse w f)) fl))"
        using Cons.prems(2) Inr by simp
      ultimately show "deriveTableName x \<noteq> deriveTableName g" by metis
    qed
    show ?thesis
    proof (cases "f \<in> set fl")
      case True
      have rd: "read_csv parse w' f = Inr df"
        using Cons.prems(4) by (simp add: same)
      from Cons.IH [OF reach dist True rd] body show ?thesis by simp
    next
      case False
      with Cons.prems(3) have fg: "f = g" by simp
      with Inr Cons.prems(4) have dfg: "dg = df" by simp
      have "tables (psql_engine (psql_loop parse fl w')) (deriveTableName g)
          = tables (psql_engine w') (deriveTableName g)"
        by (rule psql_loop_keeps_table [OF fresh])
      also have "\<dots> = Some (frame_table df True ''id'')"
        by (simp add: w'_def dfg)
      finally show ?thesis using body fg by simp
    qed
  qed
qed

lemmas sample_defs =
  ada_text_def bob_text_def big_text_def ada_frame_def bob_frame_def big_frame_def
  sample_parse_def empty_db_def

lemmas run_defs =
  file_list_def discover_def iterdir_def path_dir_def joinpath_def str_endswith_def
  sqlite_cell_def psql_cell_def sqlite_body_def psql_body_def read_csv_def to_sql_def
  frame_table_def print_error_def error_line_def table_name_defs

section \<open>The claims\<close>

subsection \<open>C1: one file's failure and the rest of the batch\<close>

text \<open>
  C1. A failure raised while parsing or loading one file is caught at the per-file step,
  recorded with the error's description, and the batch goes on to the next file; a batch
  never ends early because of one file.

  The Postgres loop does this: the failed iteration prints \<^verbatim>\<open>Error: \<close> and the
  description, and the loop continues with the world it had. The SQLite loop has no
  \<^verbatim>\<open>try\<close>: the same failure leaves the loop at once, with the exception uncaught and
  the remaining files \<open>fl\<close> never read.
\<close>

theorem sqlite_loop_aborts_where_psql_loop_goes_on:
  "(sqlite_body parse f w = Inl e \<longrightarrow> sqlite_loop parse (f # fl) w = (w, Some e))
   \<and> (psql_body parse f w = Inl e \<longrightarrow>
        psql_loop parse (f # fl) w = psql_loop parse fl (print_error e w)
        \<and> psql_results parse (f # fl) w = Failure f e # psql_results parse fl (print_error e w)
        \<and> stdout (print_error e w) = stdout w @ [''Error: '' @ describe e])"
  by (simp add: print_error_def error_line_def)

text \<open>The failing input: \<^verbatim>\<open>../data\<close> holds an empty \<^verbatim>\<open>Bad.csv\<close>, enumerated first,
  and a well-formed \<^verbatim>\<open>Person.csv\<close>. The SQLite cell ends with the parser's exception and
  no table \<^verbatim>\<open>persons\<close>; the Postgres cell prints the error and loads \<^verbatim>\<open>persons\<close>.\<close>

theorem sqlite_cell_aborts_on_bad_first_world:
  "sqlite_body sample_parse ''../data/Bad.csv'' bad_first_world
     = Inl (EmptyDataError ''No columns to parse from file'')
   \<and> file_list bad_first_world = Inr [''../data/Bad.csv'', ''../data/Person.csv'']
   \<and> sqlite_loop sample_parse [''../data/Bad.csv'', ''../data/Person.csv''] bad_first_world
     = (bad_first_world, Some (EmptyDataError ''No columns to parse from file''))
   \<and> sqlite_cell sample_parse bad_first_world
     = (bad_first_world, Some (EmptyDataError ''No columns to parse from file''))
   \<and> tables (engine (fst (sqlite_cell sample_parse bad_first_world))) ''persons'' = None
   \<and> psql_body sample_parse ''../data/Bad.csv'' bad_first_world
     = Inl (EmptyDataError ''No columns to parse from file'')
   \<and> psql_loop sample_parse [''../data/Bad.csv'', ''../data/Person.csv''] bad_first_world
     = psql_loop sample_parse [''../data/Person.csv'']
         (print_error (EmptyDataError ''No columns to parse from file'') bad_first_world)
   \<and> snd (psql_cell sample_parse bad_first_world) = None
   \<and> stdout (fst (psql_cell sample_parse bad_first_world))
     = [''Error: No columns to parse from file'']
   \<and> tables (psql_engine (fst (psql_cell sample_parse bad_first_world))) ''persons''
     = Some (frame_table ada_frame True ''id'')"
proof -
  have h: "sqlite_body sample_parse ''../data/Bad.csv'' bad_first_world
      = Inl (EmptyDataError ''No columns to parse from file'')"
    by (simp add: bad_first_world_def run_defs sample_defs)
  have fl: "file_list bad_first_world = Inr [''../data/Bad.csv'', ''../data/Person.csv'']"
    by (simp add: bad_first_world_def run_defs)
  have l: "sqlite_loop sample_parse [''../data/Bad.csv'', ''../data/Person.csv''] bad_first_world
      = (bad_first_world, Some (EmptyDataError ''No columns to parse from file''))"
    using h sqlite_loop_aborts_where_psql_loop_goes_on
      [of sample_parse "''../data/Bad.csv''" bad_first_world
        "EmptyDataError ''No columns to parse from file''" "[''../data/Person.csv'']"]
    by blast
  have c: "sqlite_cell sample_parse bad_first_world
      = (bad_first_world, Some (EmptyDataError ''No columns to parse from file''))"
    using fl l by (simp add: sqlite_cell_def)
  have e: "tables (engine (fst (sqlite_cell sample_parse bad_first_world))) ''persons'' = None"
    unfolding c by (simp add: bad_first_world_def empty_db_def)
  have hp: "psql_body sample_parse ''../data/Bad.csv'' bad_first_world
      = Inl (EmptyDataError ''No columns to parse from file'')"
    by (simp add: bad_first_world_def run_defs sample_defs)
  have lp: "psql_loop sample_parse [''../data/Bad.csv'', ''../data/Person.csv''] bad_first_world
      = psql_loop sample_parse [''../data/Person.csv'']
          (print_error (EmptyDataError ''No columns to parse from file'') bad_first_world)"
    using hp sqlite_loop_aborts_where_psql_loop_goes_on
      [of sample_parse "''../data/Bad.csv''" bad_first_world
        "EmptyDataError ''No columns to parse from file''" "[''../data/Person.csv'']"]
    by blast
  have p: "snd (psql_cell sample_parse bad_first_world) = None
     \<and> stdout (fst (psql_cell sample_parse bad_first_world))
       = [''Error: No columns to parse from file'']
     \<and> tables (psql_engine (fst (psql_cell sample_parse bad_first_world))) ''persons''
       = Some (frame_table ada_frame True ''id'')"
    by (simp add: bad_first_world_def run_defs sample_defs)
  from h fl l c e hp lp p show ?thesis by blast
qed

subsection \<open>C2: one malformed file among N\<close>

text \<open>
  C2 as stated fails when two well-formed files derive the same table name: each
  \<^verbatim>\<open>'replace'\<close> write drops what the earlier file wrote. In \<open>collide_world\<close> the loop
  runs three iterations, two succeed and one fails, and the sink ends with one table,
  which holds the rows of \<^verbatim>\<open>Person.old.csv\<close> and not those of \<^verbatim>\<open>Person.csv\<close>.
\<close>

theorem colliding_table_names_counterexample:
  "file_list collide_world
     = Inr [''../data/Person.csv'', ''../data/Person.old.csv'', ''../data/Bad.csv'']
   \<and> psql_results sample_parse
        [''../data/Person.csv'', ''../data/Person.old.csv'', ''../data/Bad.csv''] collide_world
     = [Success ''persons'', Success ''persons'',
        Failure ''../data/Bad.csv'' (EmptyDataError ''No columns to parse from file'')]
   \<and> read_csv sample_parse collide_world ''../data/Person.csv'' = Inr ada_frame
   \<and> tables (psql_engine (fst (psql_cell sample_parse collide_world)))
        (deriveTableName ''../data/Person.csv'')
     = Some (frame_table bob_frame True ''id'')
   \<and> tables (psql_engine (fst (psql_cell sample_parse collide_world)))
        (deriveTableName ''../data/Person.csv'')
     \<noteq> Some (frame_table ada_frame True ''id'')
   \<and> dom (tables (psql_engine (fst (psql_cell sample_parse collide_world)))) = {''persons''}"
  by (simp add: collide_world_def run_defs sample_defs)

text \<open>
  C2, amended. Let the file list have N entries of which exactly one fails to parse, let
  the sink take the write of every well-formed file (so that each of these loads
  succeeds), and let the well-formed files derive pairwise distinct table names. Then the cell ends without an uncaught exception; its N iterations have, in
  the order of the file list, one outcome each, the failure for the malformed file and a
  success for every other; exactly one outcome is a failure and N - 1 are successes; one
  line is printed; and afterwards the sink holds, for every well-formed file, a table under
  its derived name with the rows of that file. (The notebook returns no list of outcomes:
  \<open>psql_results\<close> reads them off the run.)
\<close>

theorem one_malformed_file_among_distinct_names:
  assumes "file_list w = Inr fl"
    and "\<forall>f\<in>set fl. \<forall>df. read_csv parse w f = Inr df \<longrightarrow>
      accepts (psql_engine w) (deriveTableName f) df"
    and "length (filter (\<lambda>f. isl (read_csv parse w f)) fl) = 1"
    and "distinct (map deriveTableName (filter (\<lambda>f. \<not> isl (read_csv parse w f)) fl))"
  shows "psql_cell parse w = (psql_loop parse fl w, None)
    \<and> length (psql_results parse fl w) = length fl
    \<and> psql_results parse fl w =
        map (\<lambda>f. case read_csv parse w f of Inl e \<Rightarrow> Failure f e
                    | Inr df \<Rightarrow> Success (deriveTableName f)) fl
    \<and> length (filter is_failure (psql_results parse fl w)) = 1
    \<and> Suc (length (filter (\<lambda>r. \<not> is_failure r) (psql_results parse fl w))) = length fl
    \<and> length (stdout (psql_loop parse fl w)) = Suc (length (stdout w))
    \<and> (\<forall>f\<in>set fl. \<forall>df. read_csv parse w f = Inr df \<longrightarrow>
          tables (psql_engine (psql_loop parse fl w)) (deriveTableName f)
            = Some (frame_table df True ''id''))"
proof -
  let ?out = "\<lambda>f. case read_csv parse w f of Inl e \<Rightarrow> Failure f e
                    | Inr df \<Rightarrow> Success (deriveTableName f)"
  have cell: "psql_cell parse w = (psql_loop parse fl w, None)"
    using assms(1) by (simp add: psql_cell_def)
  have res: "psql_results parse fl w = map ?out fl"
    by (rule psql_results_accepted [OF assms(2)])
  have "is_failure (?out f) = isl (read_csv parse w f)" for f
    by (cases "read_csv parse w f") simp_all
  then have "filter is_failure (map ?out fl) = map ?out (filter (\<lambda>f. isl (read_csv parse w f)) fl)"
    by (simp add: filter_map comp_def)
  then have one: "length (filter is_failure (psql_results parse fl w)) = 1"
    using assms(3) by (simp add: res)
  have "length (filter is_failure (psql_results parse fl w))
      + length (filter (\<lambda>r. \<not> is_failure r) (psql_results parse fl w))
      = length (psql_results parse fl w)"
    by (rule sum_length_filter_compl)
  with one have rest: "Suc (length (filter (\<lambda>r. \<not> is_failure r) (psql_results parse fl w))) = length fl"
    by (simp add: psql_results_length)
  have out: "length (stdout (psql_loop parse fl w)) = Suc (length (stdout w))"
    by (simp add: psql_stdout length_printed one)
  have sink: "\<forall>f\<in>set fl. \<forall>df. read_csv parse w f = Inr df \<longrightarrow>
      tables (psql_engine (psql_loop parse fl w)) (deriveTableName f)
        = Some (frame_table df True ''id'')"
    using psql_loop_loads [OF assms(2) assms(4)] by blast
  from cell res one rest out sink show ?thesis
    by (simp add: psql_results_length)
qed

theorem one_malformed_file_witness:
  "file_list mixed_world
     = Inr [''../data/Person.csv'', ''../data/Bad.csv'', ''../data/ContactDetail.csv'']
   \<and> accepts (psql_engine mixed_world) ''persons'' ada_frame
   \<and> accepts (psql_engine mixed_world) ''contactdetails'' bob_frame
   \<and> psql_results sample_parse
        [''../data/Person.csv'', ''../data/Bad.csv'', ''../data/ContactDetail.csv''] mixed_world
     = [Success ''persons'',
        Failure ''../data/Bad.csv'' (EmptyDataError ''No columns to parse from file''),
        Success ''contactdetails'']
   \<and> tables (psql_engine (fst (psql_cell sample_parse mixed_world))) ''persons''
     = Some (frame_table ada_frame True ''id'')
   \<and> tables (psql_engine (fst (psql_cell sample_parse mixed_world))) ''contactdetails''
     = Some (frame_table bob_frame True ''id'')
   \<and> length (stdout (fst (psql_cell sample_parse mixed_world))) = 1"
proof -
  let ?fl = "[''../data/Person.csv'', ''../data/Bad.csv'', ''../data/ContactDetail.csv'']"
  have h1: "file_list mixed_world = Inr ?fl"
    by (simp add: mixed_world_def run_defs)
  have a: "accepts (psql_engine mixed_world) name df" for name df
    by (simp add: mixed_world_def empty_db_def accepts_def)
  then have h2: "\<forall>f\<in>set ?fl. \<forall>df. read_csv sample_parse mixed_world f = Inr df \<longrightarrow>
      accepts (psql_engine mixed_world) (deriveTableName f) df"
    by blast
  have r: "read_csv sample_parse mixed_world ''../data/Person.csv'' = Inr ada_frame"
    "read_csv sample_parse mixed_world ''../data/Bad.csv''
      = Inl (EmptyDataError ''No columns to parse from file'')"
    "read_csv sample_parse mixed_world ''../data/ContactDetail.csv'' = Inr bob_frame"
    by (simp_all add: mixed_world_def read_csv_def sample_defs)
  have n: "deriveTableName ''../data/Person.csv'' = ''persons''"
    "deriveTableName ''../data/ContactDetail.csv'' = ''contactdetails''"
    "deriveTableName ''../data/Bad.csv'' = ''bads''"
    by (simp_all add: table_name_defs)
  have h3: "length (filter (\<lambda>f. isl (read_csv sample_parse mixed_world f)) ?fl) = 1"
    by (simp add: r)
  have h4: "distinct (map deriveTableName
      (filter (\<lambda>f. \<not> isl (read_csv sample_parse mixed_world f)) ?fl))"
    by (simp add: r n)
  note t = one_malformed_file_among_distinct_names [OF h1 h2 h3 h4]
  from t have c: "psql_cell sample_parse mixed_world = (psql_loop sample_parse ?fl mixed_world, None)"
    by blast
  from t have res: "psql_results sample_parse ?fl mixed_world =
      map (\<lambda>f. case read_csv sample_parse mixed_world f of Inl e \<Rightarrow> Failure f e
                  | Inr df \<Rightarrow> Success (deriveTableName f)) ?fl"
    by blast
  from t have sink: "\<forall>f\<in>set ?fl. \<forall>df. read_csv sample_parse mixed_world f = Inr df \<longrightarrow>
      tables (psql_engine (psql_loop sample_parse ?fl mixed_world)) (deriveTableName f)
        = Some (frame_table df True ''id'')"
    by blast
  from t have out: "length (stdout (psql_loop sample_parse ?fl mixed_world))
      = Suc (length (stdout mixed_world))"
    by blast
  have s1: "tables (psql_engine (psql_loop sample_parse ?fl mixed_world)) ''persons''
      = Some (frame_table ada_frame True ''id'')"
    using sink by (simp add: r n)
  have s2: "tables (psql_engine (psql_loop sample_parse ?fl mixed_world)) ''contactdetails''
      = Some (frame_table bob_frame True ''id'')"
    using sink by (simp add: r n)
  have o: "length (stdout (psql_loop sample_parse ?fl mixed_world)) = 1"
    using out by (simp add: mixed_world_def)
  have res': "psql_results sample_parse ?fl mixed_world
     = [Success ''persons'',
        Failure ''../data/Bad.csv'' (EmptyDataError ''No columns to parse from file''),
        Success ''contactdetails'']"
    unfolding res by (simp add: r n)
  from h1 a res' s1 s2 o show ?thesis by (simp add: c)
qed

text \<open>Without the hypothesis on the sink the conclusion fails: in \<open>big_id_world\<close> one
  file is malformed and the names are distinct, but the store refuses the well-formed
  \<^verbatim>\<open>Big.csv\<close>, so two iterations fail, two lines are printed and no table
  \<^verbatim>\<open>bigs\<close> is written.\<close>

lemma refused_load_example:
  "file_list big_id_world
     = Inr [''../data/Person.csv'', ''../data/Big.csv'', ''../data/Bad.csv'']
   \<and> read_csv sample_parse big_id_world ''../data/Big.csv'' = Inr big_frame
   \<and> \<not> accepts (psql_engine big_id_world) ''bigs'' big_frame
   \<and> psql_results sample_parse
        [''../data/Person.csv'', ''../data/Big.csv'', ''../data/Bad.csv''] big_id_world
     = [Success ''persons'',
        Failure ''../data/Big.csv''
          (ValueError ''Unsigned 64 bit integer datatype is not supported''),
        Failure ''../data/Bad.csv'' (EmptyDataError ''No columns to parse from file'')]
   \<and> stdout (fst (psql_cell sample_parse big_id_world))
     = [''Error: Unsigned 64 bit integer datatype is not supported'',
        ''Error: No columns to parse from file'']
   \<and> tables (psql_engine (fst (psql_cell sample_parse big_id_world))) ''bigs'' = None"
  by (simp add: big_id_world_def int64_db_def fits_int64_def accepts_def run_defs sample_defs)

subsection \<open>C3: the derived table name\<close>

text \<open>
  C3 as stated fails for a base name with more than one dot: the notebook cuts the name at
  its first dot, so \<^verbatim>\<open>my.data.csv\<close> gives \<^verbatim>\<open>mys\<close>, while the base name without
  its extension, lowercased, with \<^verbatim>\<open>s\<close> appended is \<^verbatim>\<open>my.datas\<close>.
\<close>

theorem second_dot_counterexample:
  "basename ''../data/my.data.csv'' = ''my.data.csv''
   \<and> stem ''my.data.csv'' = ''my.data''
   \<and> deriveTableName ''../data/my.data.csv'' = ''mys''
   \<and> deriveTableName ''../data/my.data.csv''
     \<noteq> str_lower (stem (basename ''../data/my.data.csv'')) @ ''s''"
  by (simp add: table_name_defs stem_def rfind_def)

text \<open>
  C3, amended. For every source file whose base name without extension holds no dot,
  \<open>deriveTableName\<close> returns the base name without extension, lowercased, with a single
  trailing \<^verbatim>\<open>s\<close> appended; in particular \<^verbatim>\<open>Person.csv\<close> gives \<^verbatim>\<open>persons\<close> and
  \<^verbatim>\<open>contactdetails.csv\<close> gives \<^verbatim>\<open>contactdetailss\<close>.
\<close>

theorem deriveTableName_of_single_suffix:
  "(CHR ''.'' \<notin> set (stem (basename f)) \<longrightarrow>
      deriveTableName f = str_lower (stem (basename f)) @ ''s'')
   \<and> deriveTableName ''Person.csv'' = ''persons''
   \<and> deriveTableName ''contactdetails.csv'' = ''contactdetailss''"
proof -
  have "deriveTableName f = str_lower (stem (basename f)) @ ''s''"
    if "CHR ''.'' \<notin> set (stem (basename f))"
    using stem_first_dot [OF that] by (simp add: deriveTableName_first_dot)
  moreover have "deriveTableName ''Person.csv'' = ''persons''"
    by (simp add: table_name_defs)
  moreover have "deriveTableName ''contactdetails.csv'' = ''contactdetailss''"
    by (simp add: table_name_defs)
  ultimately show ?thesis by blast
qed

theorem deriveTableName_of_single_suffix_witness:
  "CHR ''.'' \<notin> set (stem (basename ''../data/Person.csv''))
   \<and> str_lower (stem (basename ''../data/Person.csv'')) @ ''s'' = ''persons''
   \<and> deriveTableName ''../data/Person.csv''
     = str_lower (stem (basename ''../data/Person.csv'')) @ ''s''"
proof -
  have b: "basename ''../data/Person.csv'' = ''Person.csv''"
    by (simp add: basename_def str_split_def)
  have s: "stem ''Person.csv'' = ''Person''"
    by (simp add: stem_def rfind_def)
  have h: "CHR ''.'' \<notin> set (stem (basename ''../data/Person.csv''))"
    by (simp add: b s)
  have l: "str_lower ''Person'' @ ''s'' = ''persons''"
    by (simp add: str_lower_def lower_char_def)
  from deriveTableName_of_single_suffix [of "''../data/Person.csv''"] h
  have "deriveTableName ''../data/Person.csv''
      = str_lower (stem (basename ''../data/Person.csv'')) @ ''s''"
    by blast
  with h l show ?thesis by (simp add: b s)
qed

subsection \<open>C10: the name is cut at its first dot\<close>

text \<open>
  C10. \<open>deriveTableName\<close> truncates the file name at its first dot, not its last: for a
  base name \<open>a.rest\<close>, where \<open>a\<close> holds no dot, the table name is \<open>a\<close> lowercased
  plus \<^verbatim>\<open>s\<close>, whatever dots \<open>rest\<close> holds; \<^verbatim>\<open>my.data.csv\<close> gives \<^verbatim>\<open>mys\<close>.
\<close>

theorem deriveTableName_cuts_at_first_dot:
  assumes "CHR ''.'' \<notin> set a" and "CHR ''/'' \<notin> set a" and "CHR ''/'' \<notin> set rest"
  shows "deriveTableName (d @ ''/'' @ a @ ''.'' @ rest) = str_lower a @ ''s''
    \<and> deriveTableName (a @ ''.'' @ rest) = str_lower a @ ''s''"
proof -
  have n: "CHR ''/'' \<notin> set (a @ ''.'' @ rest)"
    using assms by simp
  have t: "takeWhile (\<lambda>c. c \<noteq> CHR ''.'') (a @ ''.'' @ rest) = a"
    using assms(1) by (induction a) auto
  have "deriveTableName (d @ ''/'' @ a @ ''.'' @ rest) = str_lower a @ ''s''"
    by (simp only: deriveTableName_first_dot basename_join [OF n] t)
  moreover have "deriveTableName (a @ ''.'' @ rest) = str_lower a @ ''s''"
    by (simp only: deriveTableName_first_dot basename_plain [OF n] t)
  ultimately show ?thesis by blast
qed

theorem deriveTableName_cuts_at_first_dot_witness:
  "CHR ''.'' \<notin> set ''my'' \<and> CHR ''/'' \<notin> set ''my'' \<and> CHR ''/'' \<notin> set ''data.csv''
   \<and> deriveTableName ''../data/my.data.csv'' = ''mys''
   \<and> deriveTableName ''my.data.csv'' = ''mys''"
proof -
  have h: "CHR ''.'' \<notin> set ''my''" "CHR ''/'' \<notin> set ''my''" "CHR ''/'' \<notin> set ''data.csv''"
    by simp_all
  have l: "str_lower ''my'' @ ''s'' = ''mys''"
    by (simp add: str_lower_def lower_char_def)
  from deriveTableName_cuts_at_first_dot [OF h, of "''../data''"]
  have "deriveTableName ''../data/my.data.csv'' = ''mys''
      \<and> deriveTableName ''my.data.csv'' = ''mys''"
    by (simp add: l)
  with h show ?thesis by blast
qed

subsection \<open>C4: what discover returns\<close>

text \<open>
  C4. For every directory, suffix and exclude set, \<open>discover\<close> returns exactly the
  entries of the directory whose path ends with the suffix and is not excluded, no others,
  in enumeration order. The comprehension tests the string of the whole path; for a suffix
  that holds no \<^verbatim>\<open>/\<close>, such as \<^verbatim>\<open>.csv\<close>, these are exactly the entries whose name
  ends with the suffix.
\<close>

theorem discover_exact:
  assumes "listing w d = Some names"
  shows "\<exists>xs. discover w d suf E = Inr xs
    \<and> set xs = {x \<in> joinpath d ` set names. str_endswith x suf \<and> x \<notin> set E}
    \<and> subseq xs (map (joinpath d) names)
    \<and> (CHR ''/'' \<notin> set suf \<longrightarrow>
         set xs = {joinpath d n |n. n \<in> set names \<and> str_endswith n suf \<and> joinpath d n \<notin> set E})"
proof -
  let ?xs = "filter (\<lambda>x. str_endswith x suf \<and> x \<notin> set E) (map (joinpath d) names)"
  have d: "discover w d suf E = Inr ?xs"
    using assms by (simp add: discover_def iterdir_def)
  have s: "set ?xs = {x \<in> joinpath d ` set names. str_endswith x suf \<and> x \<notin> set E}"
    by auto
  have o: "subseq ?xs (map (joinpath d) names)" by simp
  have n: "set ?xs = {joinpath d n |n. n \<in> set names \<and> str_endswith n suf \<and> joinpath d n \<notin> set E}"
    if "CHR ''/'' \<notin> set suf"
    using str_endswith_joinpath [OF that] by auto
  from d s o n show ?thesis by blast
qed

theorem discover_exact_witness:
  "listing mixed_world ''../data''
     = Some [''Person.csv'', ''Person1.csv'', ''Bad.csv'', ''ContactDetail.csv'']
   \<and> CHR ''/'' \<notin> set ''.csv''
   \<and> discover mixed_world ''../data'' ''.csv'' [''../data/Person1.csv'']
     = Inr [''../data/Person.csv'', ''../data/Bad.csv'', ''../data/ContactDetail.csv'']
   \<and> discover mixed_world ''../data'' ''l.csv'' []
     = Inr [''../data/ContactDetail.csv'']"
proof -
  have h: "listing mixed_world ''../data''
      = Some [''Person.csv'', ''Person1.csv'', ''Bad.csv'', ''ContactDetail.csv'']"
    by (simp add: mixed_world_def)
  from discover_exact [OF h, of "''.csv''" "[''../data/Person1.csv'']"]
    discover_exact [OF h, of "''l.csv''" "[]"]
  show ?thesis
    by (simp add: h) (simp add: mixed_world_def discover_def iterdir_def joinpath_def str_endswith_def)
qed

subsection \<open>C8: no matching entry\<close>

text \<open>
  C8. For every nonempty directory with no entry whose name ends with the suffix,
  \<open>discover\<close> returns the empty sequence and raises nothing. The first part states it for
  the test the comprehension makes (on the path), the second for the entry names and a
  suffix that holds no \<^verbatim>\<open>/\<close>.
\<close>

theorem discover_no_match:
  assumes "listing w d = Some names" and "names \<noteq> []"
  shows "((\<forall>n\<in>set names. \<not> str_endswith (joinpath d n) suf) \<longrightarrow> discover w d suf E = Inr [])
    \<and> (CHR ''/'' \<notin> set suf \<longrightarrow> (\<forall>n\<in>set names. \<not> str_endswith n suf) \<longrightarrow>
          discover w d suf E = Inr [])"
  using assms by (auto simp: discover_def iterdir_def str_endswith_joinpath filter_empty_conv)

theorem discover_no_match_witness:
  "listing txt_world ''../data'' = Some [''notes.txt'', ''sqlite.db'']
   \<and> [''notes.txt'', ''sqlite.db''] \<noteq> []
   \<and> \<not> str_endswith ''notes.txt'' ''.csv'' \<and> \<not> str_endswith ''sqlite.db'' ''.csv''
   \<and> CHR ''/'' \<notin> set ''.csv''
   \<and> discover txt_world ''../data'' ''.csv'' [''../data/Person1.csv''] = Inr []
   \<and> file_list txt_world = Inr []"
proof -
  have h: "listing txt_world ''../data'' = Some [''notes.txt'', ''sqlite.db'']"
    by (simp add: txt_world_def)
  have ne: "[''notes.txt'', ''sqlite.db''] \<noteq> []" by simp
  have no: "\<forall>n\<in>set [''notes.txt'', ''sqlite.db'']. \<not> str_endswith n ''.csv''"
    by (simp add: str_endswith_def)
  have sl: "CHR ''/'' \<notin> set ''.csv''" by simp
  from discover_no_match [OF h ne, of "''.csv''" "[''../data/Person1.csv'']"] no sl
  have d: "discover txt_world ''../data'' ''.csv'' [''../data/Person1.csv''] = Inr []"
    by blast
  then have "file_list txt_world = Inr []"
    by (simp add: file_list_discover path_dir_def)
  with h d no show ?thesis by simp
qed

subsection \<open>C7: a missing directory\<close>

text \<open>
  C7. If the directory does not exist, \<open>discover\<close> fails with FileNotFoundError (the
  spec's DirectoryNotFound). The failure is fatal: both cells end with that exception
  uncaught and the world as it was, so no file is parsed, no table is written and nothing
  is printed.
\<close>

theorem missing_directory_is_fatal:
  assumes "listing w d = None"
  shows "discover w d suf E = Inl (FileNotFoundError d)
    \<and> (d = path_dir \<longrightarrow>
         file_list w = Inl (FileNotFoundError path_dir)
         \<and> sqlite_cell parse w = (w, Some (FileNotFoundError path_dir))
         \<and> psql_cell parse w = (w, Some (FileNotFoundError path_dir)))"
  using assms by (auto simp: discover_def file_list_def iterdir_def sqlite_cell_def psql_cell_def)

theorem missing_directory_witness:
  "listing no_dir_world ''../data'' = None
   \<and> discover no_dir_world ''../data'' ''.csv'' [] = Inl (FileNotFoundError ''../data'')
   \<and> sqlite_cell sample_parse no_dir_world = (no_dir_world, Some (FileNotFoundError ''../data''))
   \<and> psql_cell sample_parse no_dir_world = (no_dir_world, Some (FileNotFoundError ''../data''))"
proof -
  have h: "listing no_dir_world ''../data'' = None"
    by (simp add: no_dir_world_def)
  from missing_directory_is_fatal [OF h, of "''.csv''" "[]" sample_parse] h
  show ?thesis by (simp add: path_dir_def)
qed

subsection \<open>C5: what a successful load leaves in the sink\<close>

text \<open>
  C5. After a successful \<^verbatim>\<open>to_sql\<close> with \<^verbatim>\<open>if_exists='replace'\<close> and
  \<^verbatim>\<open>index_label='id'\<close>, as both loops call it, the sink holds a table of the given
  name whose rows are the rows of the frame, each led by its identifier: the identifier is
  the first column, named \<^verbatim>\<open>id\<close>, and not dropped.
\<close>

theorem load_replace_materialises:
  assumes "to_sql df name con Replace True ''id'' = Inr con'"
  shows "\<exists>t. tables con' name = Some t
    \<and> col_names t = ''id'' # columns df
    \<and> rows t = map (\<lambda>(i, vs). i # vs) (entries df)
    \<and> map hd (rows t) = map fst (entries df)
    \<and> map tl (rows t) = map snd (entries df)"
proof -
  from assms have c: "con' = con\<lparr>tables := (tables con)(name \<mapsto> frame_table df True ''id'')\<rparr>"
    by (simp add: to_sql_replace_accepted)
  have "map hd (map (\<lambda>(i, vs). i # vs) es) = map fst es"
    and "map tl (map (\<lambda>(i, vs). i # vs) es) = map snd es" for es :: "(cell \<times> cell list) list"
    by (induction es) auto
  with c show ?thesis by (simp add: frame_table_def)
qed

theorem load_replace_witness:
  "to_sql ada_frame ''persons'' old_db Replace True ''id''
     = Inr (old_db\<lparr>tables := [''persons'' \<mapsto>
         \<lparr>col_names = [''id'', ''name''], rows = [[IntV 1, StrV ''Ada'']]\<rparr>]\<rparr>)
   \<and> (\<exists>t. tables (old_db\<lparr>tables := [''persons'' \<mapsto>
         \<lparr>col_names = [''id'', ''name''], rows = [[IntV 1, StrV ''Ada'']]\<rparr>]\<rparr>) ''persons'' = Some t
        \<and> col_names t = ''id'' # columns ada_frame
        \<and> rows t = map (\<lambda>(i, vs). i # vs) (entries ada_frame)
        \<and> map hd (rows t) = map fst (entries ada_frame)
        \<and> map tl (rows t) = map snd (entries ada_frame))"
proof -
  have h: "to_sql ada_frame ''persons'' old_db Replace True ''id''
      = Inr (old_db\<lparr>tables := [''persons'' \<mapsto>
         \<lparr>col_names = [''id'', ''name''], rows = [[IntV 1, StrV ''Ada'']]\<rparr>]\<rparr>)"
    by (simp add: to_sql_def old_db_def frame_table_def ada_frame_def bob_frame_def)
  from load_replace_materialises [OF h] h show ?thesis by blast
qed

subsection \<open>C6: the round trip through the sink\<close>

text \<open>
  C6. Loading a frame under \<^verbatim>\<open>'replace'\<close> and reading the same table back yields the
  rows of the frame, identifier values included (as the column \<^verbatim>\<open>id\<close>): the same rows
  in the model's order, hence the same set of rows.
\<close>

theorem replace_round_trip:
  assumes "to_sql df name con Replace True ''id'' = Inr con'"
  shows "\<exists>got. read_sql name con' = Inr got
    \<and> columns got = ''id'' # columns df
    \<and> map snd (entries got) = map (\<lambda>(i, vs). i # vs) (entries df)
    \<and> set (map snd (entries got)) = (\<lambda>(i, vs). i # vs) ` set (entries df)"
proof -
  from assms have r: "reachable con"
    and c: "con' = con\<lparr>tables := (tables con)(name \<mapsto> frame_table df True ''id'')\<rparr>"
    using to_sql_replace_accepted [OF assms] by (simp_all add: accepts_def)
  define got where "got = \<lparr>index_name = None, columns = ''id'' # columns df,
    entries = zip (map (\<lambda>i. IntV (int i)) [0..<length (entries df)])
      (map (\<lambda>(i, vs). i # vs) (entries df))\<rparr>"
  have b1: "read_sql name con' = Inr got"
    using r c by (simp add: read_sql_def frame_table_def got_def)
  have b2: "columns got = ''id'' # columns df"
    by (simp add: got_def)
  have b3: "map snd (entries got) = map (\<lambda>(i, vs). i # vs) (entries df)"
    by (simp add: got_def map_snd_zip)
  have b4: "set (map snd (entries got)) = (\<lambda>(i, vs). i # vs) ` set (entries df)"
    by (simp only: b3 set_map)
  from b1 b2 b3 b4 show ?thesis by blast
qed

theorem replace_round_trip_witness:
  "to_sql ada_frame ''persons'' old_db Replace True ''id''
     = Inr (old_db\<lparr>tables := [''persons'' \<mapsto>
         \<lparr>col_names = [''id'', ''name''], rows = [[IntV 1, StrV ''Ada'']]\<rparr>]\<rparr>)
   \<and> read_sql ''persons'' (old_db\<lparr>tables := [''persons'' \<mapsto>
         \<lparr>col_names = [''id'', ''name''], rows = [[IntV 1, StrV ''Ada'']]\<rparr>]\<rparr>)
     = Inr \<lparr>index_name = None, columns = [''id'', ''name''],
            entries = [(IntV 0, [IntV 1, StrV ''Ada''])]\<rparr>"
proof -
  have h: "to_sql ada_frame ''persons'' old_db Replace True ''id''
      = Inr (old_db\<lparr>tables := [''persons'' \<mapsto>
         \<lparr>col_names = [''id'', ''name''], rows = [[IntV 1, StrV ''Ada'']]\<rparr>]\<rparr>)"
    by (simp add: to_sql_def old_db_def frame_table_def ada_frame_def bob_frame_def)
  from replace_round_trip [OF h] h show ?thesis
    by (simp add: read_sql_def old_db_def ada_frame_def)
qed

subsection \<open>C9: the source files are left alone\<close>

text \<open>
  C9. No operation of the loader changes a source file. \<open>iterdir\<close>, \<open>discover\<close>,
  \<open>read_csv\<close> and \<open>deriveTableName\<close> return values and no new world; \<open>to_sql\<close> returns
  a new store only; and after either migration cell, or either loop over any list of
  files, whether it ends normally or with an exception, every file has the text it had
  (none is changed, none is removed), and after the Postgres cell and loop every directory
  lists the entries it listed before. (The SQLite engine may create its own database file
  \<^verbatim>\<open>sqlite.db\<close> in the data directory; that is not a source file.)
\<close>

theorem loader_leaves_files_unchanged:
  "contents (fst (sqlite_cell parse w)) = contents w
   \<and> listing (fst (psql_cell parse w)) = listing w
   \<and> contents (fst (psql_cell parse w)) = contents w
   \<and> contents (fst (sqlite_loop parse fl w)) = contents w
   \<and> listing (psql_loop parse fl w) = listing w
   \<and> contents (psql_loop parse fl w) = contents w"
  by (simp add: sqlite_cell_def psql_cell_def sqlite_loop_frame psql_loop_frame split: sum.splits)

end
